theory Spec2Isabelle
  imports Complex_Main "HOL-Library.Sublist"
begin

section \<open>Python string operations used by the pipeline\<close>

text \<open>
  Python strings are modelled as \<open>string\<close> (lists of 8-bit characters) and are read as
  ASCII text: the letters \<open>a\<close>..\<open>z\<close> and \<open>A\<close>..\<open>Z\<close> are the cased characters, \<open>0\<close>..\<open>9\<close> the
  digits; every other character is uncased and not a digit.
\<close>

definition is_lower :: "char \<Rightarrow> bool" where
  "is_lower c = (97 \<le> (of_char c :: nat) \<and> (of_char c :: nat) \<le> 122)"

definition is_upper :: "char \<Rightarrow> bool" where
  "is_upper c = (65 \<le> (of_char c :: nat) \<and> (of_char c :: nat) \<le> 90)"

definition is_digit :: "char \<Rightarrow> bool" where
  "is_digit c = (48 \<le> (of_char c :: nat) \<and> (of_char c :: nat) \<le> 57)"

definition is_space :: "char \<Rightarrow> bool" where
  \<comment> \<open>the ASCII characters that \<open>str.strip()\<close> removes: TAB, LF, VT, FF, CR, FS, GS, RS, US, SPACE\<close>
  "is_space c = ((9 \<le> (of_char c :: nat) \<and> (of_char c :: nat) \<le> 13)
               \<or> (28 \<le> (of_char c :: nat) \<and> (of_char c :: nat) \<le> 32))"

definition to_upper :: "char \<Rightarrow> char" where
  "to_upper c = (if is_lower c then char_of ((of_char c :: nat) - 32) else c)"

definition to_lower :: "char \<Rightarrow> char" where
  "to_lower c = (if is_upper c then char_of ((of_char c :: nat) + 32) else c)"

text \<open>
  \<open>str.title()\<close>: a cased character that follows an uncased one (or starts the string) is
  upper-cased, a cased character that follows a cased one is lower-cased, everything else is
  kept. The flag is "the previous character was cased".
\<close>

fun title_from :: "bool \<Rightarrow> string \<Rightarrow> string" where
  "title_from prev [] = []"
| "title_from prev (c # cs) =
     (if is_lower c \<or> is_upper c
      then (if prev then to_lower c else to_upper c) # title_from True cs
      else c # title_from False cs)"

definition py_title :: "string \<Rightarrow> string" where
  "py_title s = title_from False s"

text \<open>
  \<open>s.replace(old, new)\<close>: scanning from the left, every occurrence of \<open>old\<close> that does not
  overlap an occurrence already replaced is replaced by \<open>new\<close>. For the empty \<open>old\<close> Python
  inserts \<open>new\<close> before every character and at the end.
\<close>

function py_replace :: "string \<Rightarrow> string \<Rightarrow> string \<Rightarrow> string" where
  "py_replace s old new =
     (if old = [] then new @ concat (map (\<lambda>c. c # new) s)
      else if s = [] then []
      else if prefix old s then new @ py_replace (drop (length old) s) old new
      else hd s # py_replace (tl s) old new)"
  by pat_completeness auto
termination
  by (relation "measure (\<lambda>(s, old, new). length s)") auto

declare py_replace.simps [simp del]

text \<open>\<open>str.strip()\<close> removes leading and trailing whitespace.\<close>

definition py_strip :: "string \<Rightarrow> string" where
  "py_strip s = rev (dropWhile is_space (rev (dropWhile is_space s)))"

text \<open>\<open>str(n)\<close> for an integer: its decimal numeral.\<close>

function str_nat :: "nat \<Rightarrow> string" where
  "str_nat n =
     (if n < 10 then [char_of (48 + n)]
      else str_nat (n div 10) @ [char_of (48 + n mod 10)])"
  by pat_completeness auto
termination
  by (relation "measure id") auto

declare str_nat.simps [simp del]

definition str_int :: "int \<Rightarrow> string" where
  "str_int i = (if i < 0 then CHR ''-'' # str_nat (nat (- i)) else str_nat (nat i))"

section \<open>Errors and the external generation service\<close>

text \<open>
  The Python exceptions the pipeline can raise, with their message:
  \<open>ValueError\<close> (unknown template key), \<open>KeyError\<close> (a failing dictionary subscript) and the
  plain \<open>Exception\<close> that wraps a failure of the personalization call.
\<close>

datatype error = ValueError string | KeyError string | Exception string

text \<open>
  One call \<open>client.chat.completions.create(model=..., messages=..., max_tokens=...,
  temperature=...)\<close>. A message is a pair of role and content.
\<close>

record request =
  model :: string
  messages :: "(string \<times> string) list"
  max_tokens :: int
  temperature :: rat

text \<open>
  The service is outside the program. Its answer to a request may depend on everything sent
  before, so it is a function of the history of earlier requests and the request: \<open>Inr content\<close>
  is \<open>response.choices[0].message.content\<close>; \<open>Inl msg\<close> stands for any exception raised by the
  call or while reading the response, with \<open>msg\<close> its \<open>str(e)\<close>. Each call appends its request
  to the history \<open>hist\<close>, so the history counts the calls made.
\<close>

type_synonym service = "request list \<Rightarrow> request \<Rightarrow> string + string"

definition create_completion ::
  "service \<Rightarrow> request list \<Rightarrow> request \<Rightarrow> (string + string) \<times> request list" where
  "create_completion svc hist req = (svc hist req, hist @ [req])"

section \<open>communication\_engine.py\<close>

record tolerance_setting =
  limit :: int
  instruction :: string

definition nl :: char where
  "nl = CHR 0x0A"

definition deviation_tolerance_settings :: "string \<rightharpoonup> tolerance_setting" where
  "deviation_tolerance_settings =
     [''strict'' \<mapsto> \<lparr>limit = 10, instruction = ''Follow the standard response EXACTLY. Make only minimal changes necessary to address the specific customer inquiry. Deviation should be less than 10%.''\<rparr>,
      ''minimal'' \<mapsto> \<lparr>limit = 25, instruction = ''Follow the standard response closely but allow minor modifications to better address the customer inquiry. Deviation should be less than 25%.''\<rparr>,
      ''moderate'' \<mapsto> \<lparr>limit = 50, instruction = ''Use the standard response as a strong guideline but allow moderate changes to personalize and improve the response. Deviation should be less than 50%.''\<rparr>,
      ''flexible'' \<mapsto> \<lparr>limit = 70, instruction = ''Use the standard response as a foundation but feel free to significantly modify to create the best possible response. Deviation can be up to 70%.''\<rparr>]"

text \<open>\<open>d[k]\<close> raises \<open>KeyError\<close> for a missing key; \<open>d.get(k, default)\<close> does not.\<close>

definition dict_getitem :: "(string \<rightharpoonup> 'v) \<Rightarrow> string \<Rightarrow> error + 'v" where
  "dict_getitem d k = (case d k of None \<Rightarrow> Inl (KeyError k) | Some v \<Rightarrow> Inr v)"

definition dict_get :: "(string \<rightharpoonup> 'v) \<Rightarrow> string \<Rightarrow> 'v \<Rightarrow> 'v" where
  "dict_get d k dflt = (case d k of None \<Rightarrow> dflt | Some v \<Rightarrow> v)"

text \<open>
  \<open>self.deviation_tolerance_settings.get(tolerance, self.deviation_tolerance_settings["minimal"])\<close>:
  the default is evaluated first, by subscript.
\<close>

definition tolerance_config :: "string \<Rightarrow> error + tolerance_setting" where
  "tolerance_config tolerance =
     (case dict_getitem deviation_tolerance_settings ''minimal'' of
        Inl e \<Rightarrow> Inl e
      | Inr dflt \<Rightarrow> Inr (dict_get deviation_tolerance_settings tolerance dflt))"

definition get_deviation_tolerance_limit :: "string \<Rightarrow> error + int" where
  "get_deviation_tolerance_limit tolerance =
     (case tolerance_config tolerance of Inl e \<Rightarrow> Inl e | Inr cfg \<Rightarrow> Inr (limit cfg))"

definition personalization_prompt :: "string \<Rightarrow> string \<Rightarrow> string \<Rightarrow> string" where
  "personalization_prompt customer_inquiry std instr =
      [nl] @
      ''        Customer Inquiry: '' @
      customer_inquiry @
      [nl] @
      ''        '' @
      [nl] @
      ''        Organization's Standard Response Template:'' @
      [nl] @
      ''        '' @
      std @
      [nl] @
      ''        '' @
      [nl] @
      ''        Deviation Guidelines: '' @
      instr @
      [nl] @
      ''        '' @
      [nl] @
      ''        Using the standard response above as your base template, generate a personalized response that addresses the specific customer inquiry while staying within the allowed deviation tolerance. Maintain the organization's professional tone and include all required corporate elements.'' @
      [nl] @
      ''        ''"

definition personalization_system :: string where
  "personalization_system = ''You are a corporate customer service representative. You MUST use the provided standard response as your base template and stay within the specified deviation tolerance. Personalize the standard response to address the specific customer inquiry while maintaining the organization's approved language, tone, and structure. Do not deviate beyond the allowed percentage.''"

text \<open>
  \<open>generate_personalized_response\<close>. The tolerance lookup happens before the \<open>try\<close>; every
  exception inside the \<open>try\<close> is re-raised as \<open>Exception("Error generating communication: ...")\<close>.
  The arguments \<open>mdl\<close> and \<open>max_tok\<close> default to \<open>"gpt-3.5-turbo"\<close> and \<open>800\<close>. Printing the
  prompt is not modelled.
\<close>

definition generate_personalized_response ::
  "service \<Rightarrow> request list \<Rightarrow> string \<Rightarrow> string \<Rightarrow> string \<Rightarrow> string \<Rightarrow> int
     \<Rightarrow> (error + string) \<times> request list" where
  "generate_personalized_response svc hist customer_inquiry std tolerance mdl max_tok =
     (case tolerance_config tolerance of
        Inl e \<Rightarrow> (Inl e, hist)
      | Inr cfg \<Rightarrow>
          (let prompt = personalization_prompt customer_inquiry std (instruction cfg);
               req = \<lparr>model = mdl,
                      messages = [(''system'', personalization_system), (''user'', prompt)],
                      max_tokens = max_tok,
                      temperature = 7 / 10\<rparr>
           in case create_completion svc hist req of
                (Inl msg, hist') \<Rightarrow> (Inl (Exception (''Error generating communication: '' @ msg)), hist')
              | (Inr content, hist') \<Rightarrow> (Inr (py_strip content), hist')))"

definition comparison_prompt :: "string \<Rightarrow> string \<Rightarrow> string" where
  "comparison_prompt std generated =
      [nl] @
      ''            Compare these two responses and calculate the percentage of deviation from the standard response.'' @
      [nl] @
      ''            Consider differences in:'' @
      [nl] @
      ''            - Content structure and organization'' @
      [nl] @
      ''            - Tone and language style'' @
      [nl] @
      ''            - Information completeness'' @
      [nl] @
      ''            - Professional formality'' @
      [nl] @
      ''            - Specific details and procedures'' @
      [nl] @
      ''            '' @
      [nl] @
      ''            Standard Response:'' @
      [nl] @
      ''            '' @
      std @
      [nl] @
      ''            '' @
      [nl] @
      ''            Generated Response:'' @
      [nl] @
      ''            '' @
      generated @
      [nl] @
      ''            '' @
      [nl] @
      ''            Provide ONLY a numeric percentage (0-100) representing how much the generated response deviates from the standard.'' @
      [nl] @
      ''            0% means identical, 100% means completely different.'' @
      [nl] @
      ''            ''"

definition comparison_system :: string where
  "comparison_system = ''You are an expert text comparison analyst. Provide only the numeric percentage of deviation.''"

text \<open>
  \<open>re.search(r'(\d+(?:\.\d+)?)', result)\<close>: the leftmost match starts at the first digit of the
  text; \<open>\d+\<close> is greedy and takes the whole run of digits; the optional group takes a dot and
  the run of digits after it when the dot is followed by at least one digit. The result is the
  matched text, \<open>None\<close> when the text has no digit.
\<close>

definition search_number :: "string \<Rightarrow> string option" where
  "search_number s =
     (case dropWhile (\<lambda>c. \<not> is_digit c) s of
        [] \<Rightarrow> None
      | d # ds \<Rightarrow>
          (let ip = takeWhile is_digit (d # ds);
               rest = dropWhile is_digit (d # ds)
           in case rest of
                [] \<Rightarrow> Some ip
              | c # r \<Rightarrow>
                  (if c = CHR ''.'' \<and> r \<noteq> [] \<and> is_digit (hd r)
                   then Some (ip @ c # takeWhile is_digit r)
                   else Some ip)))"

text \<open>
  \<open>float(m)\<close> for a match \<open>m\<close> of the pattern (digits, or digits, a dot and digits): the number
  the decimal numeral denotes. Python rounds this number to the nearest binary64 value; the
  rounding is not modelled, the deviation is kept as the exact rational.
\<close>

definition digit_val :: "char \<Rightarrow> nat" where
  "digit_val c = (of_char c :: nat) - 48"

definition dec_nat :: "string \<Rightarrow> nat" where
  "dec_nat ds = foldl (\<lambda>n c. 10 * n + digit_val c) 0 ds"

definition py_float :: "string \<Rightarrow> rat" where
  "py_float m =
     (let ip = takeWhile is_digit m;
          fp = drop (length ip + 1) m
      in of_nat (dec_nat ip) + of_nat (dec_nat fp) / 10 ^ length fp)"

text \<open>
  \<open>calculate_deviation_percentage\<close>: the whole body is inside \<open>try\<close>, and the handler returns
  \<open>0.0\<close> for every exception.
\<close>

definition comparison_request :: "string \<Rightarrow> string \<Rightarrow> request" where
  "comparison_request std generated =
     \<lparr>model = ''gpt-3.5-turbo'',
      messages = [(''system'', comparison_system),
                  (''user'', comparison_prompt std generated)],
      max_tokens = 50,
      temperature = 1 / 10\<rparr>"

definition calculate_deviation_percentage ::
  "service \<Rightarrow> request list \<Rightarrow> string \<Rightarrow> string \<Rightarrow> rat \<times> request list" where
  "calculate_deviation_percentage svc hist generated std =
     (case create_completion svc hist (comparison_request std generated) of
        (Inl msg, hist') \<Rightarrow> (0, hist')
      | (Inr content, hist') \<Rightarrow>
          (case search_number (py_strip content) of
             Some m \<Rightarrow> (py_float m, hist')
           | None \<Rightarrow> (0, hist')))"

section \<open>response\_processor.py\<close>

text \<open>\<open>f"[{field.replace('_', ' ').title()}]"\<close>\<close>

definition placeholder :: "string \<Rightarrow> string" where
  "placeholder field = ''['' @ py_title (py_replace field ''_'' '' '') @ '']''"

text \<open>
  One \<open>for field, value in d.items()\<close> loop: a dictionary is iterated in insertion order, so it
  is a list of pairs. \<open>None\<close> and the empty dictionary, which the \<open>if\<close> skips, are the empty
  list.
\<close>

fun fill_placeholders :: "string \<Rightarrow> (string \<times> string) list \<Rightarrow> string" where
  "fill_placeholders text [] = text"
| "fill_placeholders text ((field, val) # rest) =
     fill_placeholders (py_replace text (placeholder field) val) rest"

text \<open>
  \<open>prepare_standard_response\<close>; \<open>responses\<close> is the loaded table
  \<open>config_manager.standard_responses\<close>.
\<close>

definition prepare_standard_response ::
  "(string \<rightharpoonup> string) \<Rightarrow> string \<Rightarrow> (string \<times> string) list \<Rightarrow> (string \<times> string) list
     \<Rightarrow> error + string" where
  "prepare_standard_response responses key customer_data company_info =
     (case responses key of
        None \<Rightarrow> Inl (ValueError (''Template type '' @ [CHR 0x27] @ key @ [CHR 0x27]
                                 @ '' not found in standard responses''))
      | Some body \<Rightarrow>
          Inr (fill_placeholders (fill_placeholders body customer_data) company_info))"

record generation_result =
  generated_response :: string
  standard_response :: string
  deviation_percentage :: rat
  max_allowed_deviation :: int
  is_compliant :: bool
  compliance_level :: string
  compliance_message :: string
  template_type :: string
  deviation_tolerance :: string

text \<open>
  The \<open>if\<close>/\<open>elif\<close> chain of \<open>generate_response\<close> that sets \<open>compliance_level\<close> and
  \<open>compliance_message\<close>. The two marks of the messages are written as their UTF-8 bytes.
\<close>

definition check_mark :: string where
  "check_mark = [CHR 0xE2, CHR 0x9C, CHR 0x85]"

definition cross_mark :: string where
  "cross_mark = [CHR 0xE2, CHR 0x9D, CHR 0x8C]"

definition determine_compliance :: "rat \<Rightarrow> string \<Rightarrow> int \<Rightarrow> string \<times> string" where
  "determine_compliance dev tolerance max_allowed =
     (if dev \<le> 10 then
        (''excellent'',
         check_mark @ '' Excellent: Response closely follows organization standards'')
      else if dev \<le> 25 then
        (''good'',
         check_mark @ '' Good: Response stays within acceptable deviation range'')
      else if dev \<le> of_int max_allowed then
        (''acceptable'',
         check_mark @ '' Acceptable: Response meets deviation tolerance requirements'')
      else
        (''warning'',
         cross_mark @ '' Warning: Response exceeds '' @ tolerance @ '' tolerance limit (''
           @ str_int max_allowed @ ''%)''))"

text \<open>
  \<open>generate_response\<close>: render, personalize, score, analyse. It returns the result record or
  the exception raised, and the history of the requests sent to the service.
\<close>

definition generate_response ::
  "service \<Rightarrow> (string \<rightharpoonup> string) \<Rightarrow> request list \<Rightarrow> string \<Rightarrow> string
     \<Rightarrow> (string \<times> string) list \<Rightarrow> (string \<times> string) list \<Rightarrow> string
     \<Rightarrow> (error + generation_result) \<times> request list" where
  "generate_response svc responses hist key customer_inquiry customer_data company_info tolerance =
     (case prepare_standard_response responses key customer_data company_info of
        Inl e \<Rightarrow> (Inl e, hist)
      | Inr std \<Rightarrow>
          (case generate_personalized_response svc hist customer_inquiry std tolerance
                  ''gpt-3.5-turbo'' 800 of
             (Inl e, hist1) \<Rightarrow> (Inl e, hist1)
           | (Inr generated, hist1) \<Rightarrow>
               (case calculate_deviation_percentage svc hist1 generated std of
                  (dev, hist2) \<Rightarrow>
                    (case get_deviation_tolerance_limit tolerance of
                       Inl e \<Rightarrow> (Inl e, hist2)
                     | Inr max_allowed \<Rightarrow>
                         (case determine_compliance dev tolerance max_allowed of
                            (level, message) \<Rightarrow>
                              (Inr \<lparr>generated_response = generated,
                                    standard_response = std,
                                    deviation_percentage = dev,
                                    max_allowed_deviation = max_allowed,
                                    is_compliant = (dev \<le> of_int max_allowed),
                                    compliance_level = level,
                                    compliance_message = message,
                                    template_type = key,
                                    deviation_tolerance = tolerance\<rparr>,
                               hist2))))))"

section \<open>Definitions used to state the properties\<close>

text \<open>
  The tier rule in the words of the specification: thresholds evaluated in order,
  \<open>\<le> 10\<close> excellent, \<open>\<le> 25\<close> good, \<open>\<le> ceiling\<close> acceptable, otherwise warning.
\<close>

definition classify_spec :: "rat \<Rightarrow> int \<Rightarrow> string" where
  "classify_spec d c =
     (if d \<le> 10 then ''excellent''
      else if d \<le> 25 then ''good''
      else if d \<le> of_int c then ''acceptable''
      else ''warning'')"

text \<open>A service that answers its \<open>i\<close>-th call with the \<open>i\<close>-th entry of a script.\<close>

definition scripted :: "(string + string) list \<Rightarrow> service" where
  "scripted replies hist req =
     (if length hist < length replies then replies ! length hist else Inl ''no reply'')"

text \<open>
  A small run of the pipeline: one template, one customer field, a service that answers the
  personalization with \<open>Dear Jane\<close> and the scoring with the text \<open>score\<close>.
\<close>

definition example_responses :: "string \<rightharpoonup> string" where
  "example_responses = [''greeting'' \<mapsto> ''Hello [Customer Name]'']"

definition example_run ::
  "string \<Rightarrow> string \<Rightarrow> (error + generation_result) \<times> request list" where
  "example_run score tol =
     generate_response (scripted [Inr ''Dear Jane'', Inr score]) example_responses []
       ''greeting'' ''hi'' [(''customer_name'', ''Jane'')] [] tol"

definition example_result :: "rat \<Rightarrow> string \<Rightarrow> int \<Rightarrow> generation_result" where
  "example_result dev tol m =
     \<lparr>generated_response = ''Dear Jane'', standard_response = ''Hello Jane'',
      deviation_percentage = dev, max_allowed_deviation = m,
      is_compliant = (dev \<le> of_int m),
      compliance_level = fst (determine_compliance dev tol m),
      compliance_message = snd (determine_compliance dev tol m),
      template_type = ''greeting'', deviation_tolerance = tol\<rparr>"

text \<open>
  The rendering done by \<open>prepare_standard_response\<close> for a known template: the customer
  data first, the company information second.
\<close>

definition render :: "string \<Rightarrow> (string \<times> string) list \<Rightarrow> (string \<times> string) list \<Rightarrow> string" where
  "render body customer_data company_info =
     fill_placeholders (fill_placeholders body customer_data) company_info"

text \<open>A text without the characters \<open>[\<close> and \<open>]\<close>.\<close>

definition bracket_free :: "string \<Rightarrow> bool" where
  "bracket_free s = (CHR ''['' \<notin> set s \<and> CHR '']'' \<notin> set s)"

text \<open>
  A template body whose brackets are placeholders: every \<open>[\<close> is followed by a text without
  brackets and then \<open>]\<close>. The flag says that the scan is inside a placeholder. A \<open>]\<close> outside
  a placeholder is ordinary text.
\<close>

fun brackets_ok :: "bool \<Rightarrow> string \<Rightarrow> bool" where
  "brackets_ok inside [] = (\<not> inside)"
| "brackets_ok inside (c # cs) =
     (if c = CHR ''['' then \<not> inside \<and> brackets_ok True cs
      else if c = CHR '']'' then brackets_ok False cs
      else brackets_ok inside cs)"

definition well_bracketed :: "string \<Rightarrow> bool" where
  "well_bracketed body = brackets_ok False body"

text \<open>
  The same bodies as lists of segments: ordinary text and placeholders \<open>[g]\<close>.
\<close>

datatype segment = Text string | Hole string

fun flatten :: "segment list \<Rightarrow> string" where
  "flatten [] = []"
| "flatten (Text a # ss) = a @ flatten ss"
| "flatten (Hole g # ss) = CHR ''['' # g @ CHR '']'' # flatten ss"

fun segment_ok :: "segment \<Rightarrow> bool" where
  "segment_ok (Text a) = (CHR ''['' \<notin> set a)"
| "segment_ok (Hole g) = bracket_free g"

text \<open>Filling one placeholder name, and a list of fields, segment by segment.\<close>

fun fill :: "string \<Rightarrow> string \<Rightarrow> segment \<Rightarrow> segment" where
  "fill w v (Text a) = Text a"
| "fill w v (Hole g) = (if g = w then Text v else Hole g)"

definition placeholder_name :: "string \<Rightarrow> string" where
  "placeholder_name field = py_title (py_replace field ''_'' '' '')"

fun fill_segment :: "(string \<times> string) list \<Rightarrow> segment \<Rightarrow> segment" where
  "fill_segment [] seg = seg"
| "fill_segment ((field, val) # rest) seg = fill_segment rest (fill (placeholder_name field) val seg)"

text \<open>
  The placeholder tokens that occur in a body: every \<open>[g]\<close> with \<open>g\<close> free of brackets.
  \<open>cur\<close> is the text read since the last \<open>[\<close>, if any.
\<close>

fun holes_from :: "string option \<Rightarrow> string \<Rightarrow> string list" where
  "holes_from cur [] = []"
| "holes_from cur (c # cs) =
     (if c = CHR ''['' then holes_from (Some []) cs
      else if c = CHR '']'' then
        (case cur of Some g \<Rightarrow> g # holes_from None cs | None \<Rightarrow> holes_from None cs)
      else holes_from (map_option (\<lambda>g. g @ [c]) cur) cs)"

definition body_tokens :: "string \<Rightarrow> string list" where
  "body_tokens body = map (\<lambda>g. ''['' @ g @ '']'') (holes_from None body)"

text \<open>A field set covers a body when every token of the body is the token of a field.\<close>

definition covers :: "(string \<times> string) list \<Rightarrow> string \<Rightarrow> bool" where
  "covers fs body = list_all (\<lambda>t. t \<in> set (map (\<lambda>(k, v). placeholder k) fs)) (body_tokens body)"

text \<open>Keys without brackets, values without an opening bracket.\<close>

definition plain_fields :: "(string \<times> string) list \<Rightarrow> bool" where
  "plain_fields fs = list_all (\<lambda>(k, v). bracket_free k \<and> CHR ''['' \<notin> set v) fs"

text \<open>No token of the first field list is a token of the second.\<close>

definition disjoint_tokens :: "(string \<times> string) list \<Rightarrow> (string \<times> string) list \<Rightarrow> bool" where
  "disjoint_tokens xs ys =
     list_all (\<lambda>(k, v). placeholder k \<notin> set (map (\<lambda>(k', v'). placeholder k') ys)) xs"

text \<open>
  The token in the words of the specification, for a key given as its words: the words are
  joined by spaces, each with its first letter in upper case, inside square brackets.
\<close>

fun join_with :: "char \<Rightarrow> string list \<Rightarrow> string" where
  "join_with c [] = []"
| "join_with c (w # ws) = (if ws = [] then w else w @ c # join_with c ws)"

fun capitalize :: "string \<Rightarrow> string" where
  "capitalize [] = []"
| "capitalize (c # cs) = to_upper c # cs"

definition token_spec :: "string list \<Rightarrow> string" where
  "token_spec ws = ''['' @ join_with CHR '' '' (map capitalize ws) @ '']''"

definition lower_word :: "string \<Rightarrow> bool" where
  "lower_word w = (w \<noteq> [] \<and> list_all is_lower w)"

text \<open>A template and field sets for concrete runs of the renderer.\<close>

definition example_body :: string where
  "example_body = ''Dear [Customer Name], policy [Policy Number] is cancelled. Quote [Policy Number] when calling [Company Name].''"

definition example_customer :: "(string \<times> string) list" where
  "example_customer = [(''customer_name'', ''Jane Doe''), (''policy_number'', ''P-1002'')]"

definition example_company :: "(string \<times> string) list" where
  "example_company = [(''company_name'', ''Acme Insurance'')]"

section \<open>The stages of a successful run\<close>

lemma generate_response_InrD:
  assumes "generate_response svc responses hist key inq cd ci tol = (Inr r, h)"
  shows "\<exists>std gen h1 dev m.
           prepare_standard_response responses key cd ci = Inr std
         \<and> generate_personalized_response svc hist inq std tol ''gpt-3.5-turbo'' 800 = (Inr gen, h1)
         \<and> calculate_deviation_percentage svc h1 gen std = (dev, h)
         \<and> get_deviation_tolerance_limit tol = Inr m
         \<and> r = \<lparr>generated_response = gen, standard_response = std, deviation_percentage = dev,
                 max_allowed_deviation = m, is_compliant = (dev \<le> of_int m),
                 compliance_level = fst (determine_compliance dev tol m),
                 compliance_message = snd (determine_compliance dev tol m),
                 template_type = key, deviation_tolerance = tol\<rparr>"
  using assms unfolding generate_response_def
  by (auto split: sum.splits prod.splits)

lemma level_classify: "fst (determine_compliance d tol c) = classify_spec d c"
  by (simp add: determine_compliance_def classify_spec_def)

lemma example_run_strict_20:
  "fst (example_run ''20'' ''strict'') = Inr (example_result 20 ''strict'' 10)"
  by code_simp


lemma example_run_strict_20_full:
  "\<exists>h. generate_response (scripted [Inr ''Dear Jane'', Inr ''20'']) example_responses []
         ''greeting'' ''hi'' [(''customer_name'', ''Jane'')] [] ''strict''
       = (Inr (example_result 20 ''strict'' 10), h)"
  using example_run_strict_20
  by (cases "example_run ''20'' ''strict''") (auto simp: example_run_def)


section \<open>Compliance tiers\<close>

text \<open>
  Claim C1, as the code has it. The tier is a function of the deviation \<open>d\<close> and the ceiling
  \<open>c\<close> alone, the ordered thresholds of the specification: the tier computed by
  \<open>generate_response\<close> does not depend on the tolerance name and equals \<open>classify_spec d c\<close>,
  also in every result record. The values: \<open>(8, 25)\<close> excellent, \<open>(18, 25)\<close> good, \<open>(40, 50)\<close>
  acceptable, \<open>(40, 25)\<close> warning, \<open>(10, 10)\<close> excellent; for ceiling \<open>10\<close> the tier
  acceptable is never produced. The value at \<open>(11, 10)\<close> is good, since \<open>11 \<le> 25\<close> is
  tested before the ceiling.
\<close>

theorem compliance_level_thresholds:
  "fst (determine_compliance d tol c) = classify_spec d c
   \<and> fst (determine_compliance 8 tol 25) = ''excellent''
   \<and> fst (determine_compliance 18 tol 25) = ''good''
   \<and> fst (determine_compliance 40 tol 50) = ''acceptable''
   \<and> fst (determine_compliance 40 tol 25) = ''warning''
   \<and> fst (determine_compliance 10 tol 10) = ''excellent''
   \<and> fst (determine_compliance 11 tol 10) = ''good''
   \<and> fst (determine_compliance d tol 10) \<noteq> ''acceptable''
   \<and> (generate_response svc responses hist key inq cd ci tol = (Inr r, h) \<longrightarrow>
        compliance_level r = classify_spec (deviation_percentage r) (max_allowed_deviation r))"
proof -
  have run: "generate_response svc responses hist key inq cd ci tol = (Inr r, h) \<longrightarrow>
        compliance_level r = classify_spec (deviation_percentage r) (max_allowed_deviation r)"
  proof
    assume "generate_response svc responses hist key inq cd ci tol = (Inr r, h)"
    from generate_response_InrD [OF this] show
      "compliance_level r = classify_spec (deviation_percentage r) (max_allowed_deviation r)"
      by (auto simp: level_classify)
  qed
  have dead: "fst (determine_compliance d tol 10) \<noteq> ''acceptable''"
    by (simp add: determine_compliance_def)
  have ex: "fst (determine_compliance 8 tol 25) = ''excellent''"
    "fst (determine_compliance 18 tol 25) = ''good''"
    "fst (determine_compliance 40 tol 50) = ''acceptable''"
    "fst (determine_compliance 40 tol 25) = ''warning''"
    "fst (determine_compliance 10 tol 10) = ''excellent''"
    "fst (determine_compliance 11 tol 10) = ''good''"
    by (simp_all add: determine_compliance_def)
  from run dead ex level_classify [of d tol c] show ?thesis by blast
qed

theorem compliance_level_thresholds_witness:
  "compliance_level (example_result 20 ''strict'' 10) = classify_spec 20 10"
proof -
  obtain h where run:
    "generate_response (scripted [Inr ''Dear Jane'', Inr ''20'']) example_responses []
       ''greeting'' ''hi'' [(''customer_name'', ''Jane'')] [] ''strict''
       = (Inr (example_result 20 ''strict'' 10), h)"
    using example_run_strict_20_full by blast
  from compliance_level_thresholds [where svc = "scripted [Inr ''Dear Jane'', Inr ''20'']"
      and responses = example_responses and hist = "[]" and key = "''greeting''"
      and inq = "''hi''" and cd = "[(''customer_name'', ''Jane'')]" and ci = "[]"
      and tol = "''strict''" and r = "example_result 20 ''strict'' 10" and h = h] run
  show ?thesis by (simp add: example_result_def)
qed

text \<open>
  The value the claim gives for \<open>(11, 10)\<close>, warning, is not the value computed.
\<close>

theorem classify_11_10_counterexample:
  "fst (determine_compliance 11 ''strict'' 10) \<noteq> ''warning''"
  by (simp add: determine_compliance_def)

section \<open>Tolerance lookup\<close>

lemma limit_table:
  "get_deviation_tolerance_limit t =
     Inr (if t = ''flexible'' then 70 else if t = ''moderate'' then 50
          else if t = ''minimal'' then 25 else if t = ''strict'' then 10 else 25)"
  by (simp add: get_deviation_tolerance_limit_def tolerance_config_def dict_getitem_def
      dict_get_def deviation_tolerance_settings_def)

lemma tolerance_config_total: "\<exists>cfg. tolerance_config t = Inr cfg"
  by (simp add: tolerance_config_def dict_getitem_def deviation_tolerance_settings_def)

text \<open>
  Claim C5. The lookup is total and fails open: for every string \<open>t\<close> both
  \<open>tolerance_config\<close> (used by the personalization) and \<open>get_deviation_tolerance_limit\<close>
  return a value, never an exception; the value is an entry of the settings table, with
  ceiling 10, 25, 50 or 70; for a key outside the table it is the entry of \<open>minimal\<close>,
  ceiling 25.
\<close>

theorem tolerance_lookup_total:
  "(\<exists>cfg. tolerance_config t = Inr cfg \<and> cfg \<in> ran deviation_tolerance_settings
          \<and> get_deviation_tolerance_limit t = Inr (limit cfg)
          \<and> limit cfg \<in> {10, 25, 50, 70})
   \<and> (t \<notin> {''strict'', ''minimal'', ''moderate'', ''flexible''} \<longrightarrow>
        Some (tolerance_config t) = map_option Inr (deviation_tolerance_settings ''minimal'')
        \<and> get_deviation_tolerance_limit t = Inr 25)"
proof -
  let ?d = "deviation_tolerance_settings"
  have dflt: "dict_getitem ?d ''minimal'' = Inr (the (?d ''minimal''))"
    by (simp add: dict_getitem_def deviation_tolerance_settings_def)
  have cfg: "tolerance_config t = Inr (dict_get ?d t (the (?d ''minimal'')))"
    by (simp add: tolerance_config_def dflt)
  have lim: "get_deviation_tolerance_limit t = Inr (limit (dict_get ?d t (the (?d ''minimal''))))"
    by (simp add: get_deviation_tolerance_limit_def cfg)
  have min: "?d ''minimal'' \<noteq> None"
    by (simp add: deviation_tolerance_settings_def)
  have ran: "dict_get ?d t (the (?d ''minimal'')) \<in> ran ?d"
    using min by (cases "?d t") (auto simp: dict_get_def ran_def)
  have lims: "c \<in> ran ?d \<Longrightarrow> limit c \<in> {10, 25, 50, 70}" for c
    by (auto simp: ran_def deviation_tolerance_settings_def split: if_splits)
  have unknown: "?d t = None" if "t \<notin> {''strict'', ''minimal'', ''moderate'', ''flexible''}"
    using that by (simp add: deviation_tolerance_settings_def)
  have l25: "limit (the (?d ''minimal'')) = 25"
    by (simp add: deviation_tolerance_settings_def)
  show ?thesis
  proof (intro conjI impI)
    show "\<exists>cfg. tolerance_config t = Inr cfg \<and> cfg \<in> ran ?d
          \<and> get_deviation_tolerance_limit t = Inr (limit cfg) \<and> limit cfg \<in> {10, 25, 50, 70}"
      using cfg lim ran lims by blast
  next
    assume "t \<notin> {''strict'', ''minimal'', ''moderate'', ''flexible''}"
    from unknown [OF this] min
    show "Some (tolerance_config t) = map_option Inr (?d ''minimal'')"
      by (auto simp: cfg dict_get_def)
  next
    assume "t \<notin> {''strict'', ''minimal'', ''moderate'', ''flexible''}"
    from unknown [OF this] show "get_deviation_tolerance_limit t = Inr 25"
      by (simp add: lim dict_get_def l25)
  qed
qed

theorem tolerance_lookup_total_witness:
  "get_deviation_tolerance_limit ''lenient'' = Inr 25"
  using tolerance_lookup_total [of "''lenient''"] by simp

section \<open>Calls to the generation service\<close>

text \<open>Each of the two engine operations sends exactly one request.\<close>

lemma personalize_calls_once:
  "\<exists>req. snd (generate_personalized_response svc hist inq std tol mdl mt) = hist @ [req]"
proof -
  obtain cfg where "tolerance_config tol = Inr cfg"
    using tolerance_config_total by blast
  then show ?thesis
    by (simp add: generate_personalized_response_def create_completion_def Let_def
        split: sum.splits)
qed

lemma score_calls_once:
  "\<exists>req. snd (calculate_deviation_percentage svc hist gen std) = hist @ [req]"
  by (simp add: calculate_deviation_percentage_def create_completion_def Let_def
      split: sum.splits option.splits)

text \<open>
  Claim C2. For a template key that is not in the standard-responses table,
  \<open>generate_response\<close> raises the template-not-found error (in the code a \<open>ValueError\<close> with the
  message \<open>Template type '...' not found in standard responses\<close>) and returns the history of
  requests unchanged: no call to the service was made, neither for personalization nor for
  scoring.
\<close>

theorem unknown_template_no_calls:
  assumes "responses key = None"
  shows "generate_response svc responses hist key inq cd ci tol
         = (Inl (ValueError (''Template type '' @ [CHR 0x27] @ key @ [CHR 0x27]
                             @ '' not found in standard responses'')), hist)"
  using assms by (simp add: generate_response_def prepare_standard_response_def)

theorem unknown_template_no_calls_witness:
  "example_responses ''refund'' = None
   \<and> generate_response (scripted [Inr ''Dear Jane'', Inr ''20'']) example_responses [] ''refund''
        ''hi'' [(''customer_name'', ''Jane'')] [] ''strict''
      = (Inl (ValueError ''Template type 'refund' not found in standard responses''), [])"
proof -
  have none: "example_responses ''refund'' = None"
    by (simp add: example_responses_def)
  from unknown_template_no_calls [where responses = example_responses and key = "''refund''"
      and svc = "scripted [Inr ''Dear Jane'', Inr ''20'']" and hist = "[]" and inq = "''hi''"
      and cd = "[(''customer_name'', ''Jane'')]" and ci = "[]" and tol = "''strict''"] none
  show ?thesis by simp
qed

section \<open>Ceiling and compliance flag\<close>

text \<open>
  Claim C3. For each of the four tolerance levels, the field \<open>max_allowed_deviation\<close> of
  every result record is the ceiling of that level (strict 10, minimal 25, moderate 50,
  flexible 70), and \<open>is_compliant\<close> holds exactly when the measured deviation is at most that
  ceiling.
\<close>

theorem ceiling_and_compliance_flag:
  assumes "generate_response svc responses hist key inq cd ci tol = (Inr r, h)"
    and "tol \<in> {''strict'', ''minimal'', ''moderate'', ''flexible''}"
  shows "max_allowed_deviation r =
           (if tol = ''strict'' then 10 else if tol = ''minimal'' then 25
            else if tol = ''moderate'' then 50 else 70)
         \<and> is_compliant r = (deviation_percentage r \<le> of_int (max_allowed_deviation r))"
proof -
  from generate_response_InrD [OF assms(1)] obtain m where
    m: "get_deviation_tolerance_limit tol = Inr m" "max_allowed_deviation r = m"
    and c: "is_compliant r = (deviation_percentage r \<le> of_int (max_allowed_deviation r))"
    by auto
  have "get_deviation_tolerance_limit tol =
          Inr (if tol = ''strict'' then 10 else if tol = ''minimal'' then 25
               else if tol = ''moderate'' then 50 else 70)"
    using assms(2) unfolding limit_table by fastforce
  with m have "m = (if tol = ''strict'' then 10 else if tol = ''minimal'' then 25
            else if tol = ''moderate'' then 50 else 70)"
    by simp
  with m c show ?thesis by simp
qed

theorem ceiling_and_compliance_flag_witness:
  "max_allowed_deviation (example_result 20 ''strict'' 10) = 10
   \<and> is_compliant (example_result 20 ''strict'' 10)
     = (deviation_percentage (example_result 20 ''strict'' 10) \<le> 10)"
proof -
  obtain h where run:
    "generate_response (scripted [Inr ''Dear Jane'', Inr ''20'']) example_responses []
       ''greeting'' ''hi'' [(''customer_name'', ''Jane'')] [] ''strict''
       = (Inr (example_result 20 ''strict'' 10), h)"
    using example_run_strict_20_full by blast
  have mem: "''strict'' \<in> {''strict'', ''minimal'', ''moderate'', ''flexible''}" by simp
  from ceiling_and_compliance_flag [OF run mem] show ?thesis by simp
qed



section \<open>Deviation scoring\<close>


























section \<open>Literal replacement\<close>

lemma py_replace_Nil: "old \<noteq> [] \<Longrightarrow> py_replace [] old new = []"
  by (simp add: py_replace.simps)

lemma py_replace_prefix:
  assumes "old \<noteq> []"
  shows "py_replace (old @ b) old new = new @ py_replace b old new"
  using assms by (subst py_replace.simps) simp

lemma py_replace_Cons:
  assumes "old \<noteq> []" "\<not> prefix old (c # s)"
  shows "py_replace (c # s) old new = c # py_replace s old new"
  using assms by (subst py_replace.simps) simp

lemma py_replace_absent:
  assumes "\<not> sublist old s"
  shows "py_replace s old new = s"
  using assms
proof (induction s)
  case Nil
  then have "old \<noteq> []" by auto
  then show ?case by (simp add: py_replace_Nil)
next
  case (Cons c s)
  then have ne: "old \<noteq> []" by auto
  from Cons.prems have np: "\<not> prefix old (c # s)" and ns: "\<not> sublist old s"
    by (auto simp: sublist_Cons_right)
  show ?case using py_replace_Cons [OF ne np] Cons.IH [OF ns] by simp
qed

lemma prefix_inside:
  assumes "prefix old (a @ old @ b)" "a \<noteq> []"
  shows "prefix old (a @ butlast old)"
proof -
  have len: "length old \<le> length (a @ butlast old)"
    using assms(2) by (cases a) auto
  from assms(1) have "old = take (length old) (a @ old @ b)"
    by (metis append_eq_conv_conj prefix_def)
  also have "a @ old @ b = (a @ butlast old) @ (drop (length old - 1) old @ b)"
    by (metis append.assoc append_take_drop_id butlast_conv_take)
  also have "take (length old) \<dots> = take (length old) (a @ butlast old)"
    using len by simp
  finally show ?thesis
    by (metis take_is_prefix)
qed

lemma py_replace_first:
  assumes "old \<noteq> []" "\<not> sublist old (a @ butlast old)"
  shows "py_replace (a @ old @ b) old new = a @ new @ py_replace b old new"
  using assms(2)
proof (induction a)
  case Nil
  show ?case using py_replace_prefix [OF assms(1)] by simp
next
  case (Cons c a)
  have np: "\<not> prefix old (c # a @ old @ b)"
  proof
    assume "prefix old (c # a @ old @ b)"
    then have "prefix old ((c # a) @ butlast old)"
      using prefix_inside [of old "c # a" b] by simp
    then show False using Cons.prems by (auto simp: sublist_Cons_right)
  qed
  have ns: "\<not> sublist old (a @ butlast old)"
    using Cons.prems by (auto simp: sublist_Cons_right)
  show ?case using py_replace_Cons [OF assms(1) np] Cons.IH [OF ns] by simp
qed

lemma py_replace_skip:
  assumes "CHR ''['' \<notin> set a"
  shows "py_replace (a @ b) (CHR ''['' # x) v = a @ py_replace b (CHR ''['' # x) v"
  using assms
proof (induction a)
  case Nil
  show ?case by simp
next
  case (Cons c a)
  then have "\<not> prefix (CHR ''['' # x) (c # a @ b)" by auto
  then show ?case using py_replace_Cons [of "CHR ''['' # x" c "a @ b" v] Cons by simp
qed

lemma py_replace_empty_length:
  assumes "old \<noteq> []"
  shows "length (py_replace s old []) \<le> length s
         \<and> (sublist old s \<longrightarrow> length (py_replace s old []) < length s)"
proof (induction s rule: length_induct)
  case (1 s)
  show ?case
  proof (cases s)
    case Nil
    then show ?thesis using assms by (simp add: py_replace_Nil)
  next
    case (Cons c t)
    show ?thesis
    proof (cases "prefix old s")
      case True
      then obtain b where b: "s = old @ b" by (auto simp: prefix_def)
      then have "length b < length s" using assms by simp
      with 1 have "length (py_replace b old []) \<le> length b" by blast
      then have le: "length (py_replace b old []) \<le> length b" .
      have lo: "0 < length old" using assms by simp
      have ls: "length s = length old + length b" using b by simp
      have eq: "py_replace s old [] = py_replace b old []"
        using b py_replace_prefix [OF assms, of b "[]"] by simp
      show ?thesis unfolding eq using le lo ls by linarith
    next
      case False
      have eq: "py_replace s old [] = c # py_replace t old []"
        using py_replace_Cons [OF assms] False Cons by simp
      have "length t < length s" using Cons by simp
      with 1 have ih: "length (py_replace t old []) \<le> length t
         \<and> (sublist old t \<longrightarrow> length (py_replace t old []) < length t)" by blast
      have "sublist old s \<longrightarrow> sublist old t"
        using False Cons by (auto simp: sublist_Cons_right)
      then show ?thesis using eq ih Cons by auto
    qed
  qed
qed


lemma py_replace_removes_nothing:
  assumes "py_replace s old [] = s" "old \<noteq> []"
  shows "\<not> sublist old s"
  using py_replace_empty_length [OF assms(2), of s] assms(1) by auto

lemma py_replace_underscore:
  "py_replace s ''_'' '' '' = map (\<lambda>c. if c = CHR ''_'' then CHR '' '' else c) s"
proof (induction s)
  case Nil
  show ?case by (simp add: py_replace_Nil)
next
  case (Cons c s)
  show ?case
  proof (cases "c = CHR ''_''")
    case True
    then show ?thesis
      using py_replace_prefix [of "''_''" s "'' ''"] Cons by simp
  next
    case False
    then have "\<not> prefix ''_'' (c # s)" by simp
    then show ?thesis
      using py_replace_Cons [of "''_''" c s "'' ''"] Cons False by simp
  qed
qed

lemma to_upper_not_bracket:
  assumes "c \<noteq> CHR ''[''" "c \<noteq> CHR '']''"
  shows "to_upper c \<noteq> CHR ''['' \<and> to_upper c \<noteq> CHR '']''"
proof (cases "is_lower c")
  case False
  then show ?thesis using assms by (simp add: to_upper_def)
next
  case True
  then have "(of_char c :: nat) - 32 < 256"
    unfolding is_lower_def by linarith
  with True have "(of_char (to_upper c) :: nat) = of_char c - 32"
    by (simp add: to_upper_def)
  with True have le: "(of_char (to_upper c) :: nat) \<le> 90"
    unfolding is_lower_def by linarith
  have "to_upper c \<noteq> CHR ''[''"
  proof
    assume "to_upper c = CHR ''[''"
    then have "(of_char (to_upper c) :: nat) = 91" by simp
    with le show False by simp
  qed
  moreover have "to_upper c \<noteq> CHR '']''"
  proof
    assume "to_upper c = CHR '']''"
    then have "(of_char (to_upper c) :: nat) = 93" by simp
    with le show False by simp
  qed
  ultimately show ?thesis by simp
qed

lemma to_lower_not_bracket:
  assumes "c \<noteq> CHR ''[''" "c \<noteq> CHR '']''"
  shows "to_lower c \<noteq> CHR ''['' \<and> to_lower c \<noteq> CHR '']''"
proof (cases "is_upper c")
  case False
  then show ?thesis using assms by (simp add: to_lower_def)
next
  case True
  then have "(of_char c :: nat) + 32 < 256"
    unfolding is_upper_def by linarith
  with True have "(of_char (to_lower c) :: nat) = of_char c + 32"
    by (simp add: to_lower_def)
  with True have ge: "97 \<le> (of_char (to_lower c) :: nat)"
    unfolding is_upper_def by linarith
  have "to_lower c \<noteq> CHR ''[''"
  proof
    assume "to_lower c = CHR ''[''"
    then have "(of_char (to_lower c) :: nat) = 91" by simp
    with ge show False by simp
  qed
  moreover have "to_lower c \<noteq> CHR '']''"
  proof
    assume "to_lower c = CHR '']''"
    then have "(of_char (to_lower c) :: nat) = 93" by simp
    with ge show False by simp
  qed
  ultimately show ?thesis by simp
qed

lemma title_from_bracket_free:
  "bracket_free s \<Longrightarrow> bracket_free (title_from prev s)"
proof (induction s arbitrary: prev)
  case Nil
  then show ?case by simp
next
  case (Cons c s)
  then have c: "c \<noteq> CHR ''[''" "c \<noteq> CHR '']''" and s: "bracket_free s"
    by (auto simp: bracket_free_def)
  from Cons.IH [OF s] have ih: "\<And>p. bracket_free (title_from p s)" by simp
  show ?case
    using to_upper_not_bracket [OF c] to_lower_not_bracket [OF c] c ih
    by (auto simp: bracket_free_def)
qed

lemma placeholder_name_bracket_free:
  "bracket_free k \<Longrightarrow> bracket_free (placeholder_name k)"
proof -
  assume k: "bracket_free k"
  have "bracket_free (map (\<lambda>c. if c = CHR ''_'' then CHR '' '' else c) k)"
    using k by (auto simp: bracket_free_def)
  then show ?thesis
    by (simp add: placeholder_name_def py_title_def py_replace_underscore title_from_bracket_free)
qed

lemma placeholder_token: "placeholder k = CHR ''['' # placeholder_name k @ '']''"
  by (simp add: placeholder_def placeholder_name_def)

section \<open>Bodies as segments\<close>

lemma prefix_token_eq:
  assumes "CHR '']'' \<notin> set w" "CHR '']'' \<notin> set g"
    and "prefix (w @ CHR '']'' # x) (g @ CHR '']'' # y)"
  shows "w = g"
  using assms
proof (induction w arbitrary: g)
  case Nil
  then show ?case by (cases g) auto
next
  case (Cons c w)
  then show ?case by (cases g) auto
qed

lemma replace_flatten:
  assumes "list_all segment_ok ss" "bracket_free w"
  shows "py_replace (flatten ss) (CHR ''['' # w @ '']'') v = flatten (map (fill w v) ss)"
  using assms(1)
proof (induction ss)
  case Nil
  show ?case by (simp add: py_replace_Nil)
next
  case (Cons seg ss)
  then have ih: "py_replace (flatten ss) (CHR ''['' # w @ '']'') v = flatten (map (fill w v) ss)"
    by simp
  show ?case
  proof (cases seg)
    case (Text a)
    then have "CHR ''['' \<notin> set a" using Cons.prems by simp
    from py_replace_skip [OF this] ih Text show ?thesis by simp
  next
    case (Hole g)
    then have g: "bracket_free g" using Cons.prems by simp
    show ?thesis
    proof (cases "g = w")
      case True
      have "flatten (seg # ss) = (CHR ''['' # w @ '']'') @ flatten ss"
        using Hole True by simp
      then have "py_replace (flatten (seg # ss)) (CHR ''['' # w @ '']'') v
                 = v @ py_replace (flatten ss) (CHR ''['' # w @ '']'') v"
        using py_replace_prefix [of "CHR ''['' # w @ '']''" "flatten ss" v] by simp
      then show ?thesis using ih Hole True by simp
    next
      case False
      have np: "\<not> prefix (CHR ''['' # w @ '']'') (CHR ''['' # g @ CHR '']'' # flatten ss)"
      proof
        assume "prefix (CHR ''['' # w @ '']'') (CHR ''['' # g @ CHR '']'' # flatten ss)"
        then have "prefix (w @ CHR '']'' # []) (g @ CHR '']'' # flatten ss)" by simp
        from prefix_token_eq [OF _ _ this] assms(2) g have "w = g"
          by (simp add: bracket_free_def)
        with False show False by simp
      qed
      have "CHR ''['' \<notin> set (g @ '']'')" using g by (simp add: bracket_free_def)
      from py_replace_skip [OF this, of "flatten ss" "w @ '']''" v]
      have "py_replace (g @ CHR '']'' # flatten ss) (CHR ''['' # w @ '']'') v
            = g @ CHR '']'' # py_replace (flatten ss) (CHR ''['' # w @ '']'') v"
        by simp
      with py_replace_Cons [OF _ np, of v] ih Hole False show ?thesis by simp
    qed
  qed
qed

lemma fill_ok:
  assumes "segment_ok seg" "CHR ''['' \<notin> set v"
  shows "segment_ok (fill w v seg)"
  using assms by (cases seg) auto

lemma brackets_ok_segments:
  "(brackets_ok False s \<longrightarrow> (\<exists>ss. list_all segment_ok ss \<and> flatten ss = s))
   \<and> (brackets_ok True s \<longrightarrow>
        (\<exists>g ss. bracket_free g \<and> list_all segment_ok ss \<and> s = g @ CHR '']'' # flatten ss))"
proof (induction s)
  case Nil
  have "list_all segment_ok [] \<and> flatten [] = []" by simp
  then have "\<exists>ss. list_all segment_ok ss \<and> flatten ss = []" by (rule exI)
  then show ?case by simp
next
  case (Cons c cs)
  show ?case
  proof (cases "c = CHR ''[''")
    case True
    have "\<exists>ss. list_all segment_ok ss \<and> flatten ss = c # cs" if "brackets_ok False (c # cs)"
    proof -
      from that True have "brackets_ok True cs" by simp
      with Cons obtain g ss where
        "bracket_free g" "list_all segment_ok ss" "cs = g @ CHR '']'' # flatten ss" by blast
      then have "list_all segment_ok (Hole g # ss) \<and> flatten (Hole g # ss) = c # cs"
        using True by simp
      then show ?thesis by blast
    qed
    then show ?thesis using True by simp
  next
    case nb: False
    show ?thesis
    proof (cases "c = CHR '']''")
      case True
      have 1: "\<exists>ss. list_all segment_ok ss \<and> flatten ss = c # cs" if "brackets_ok False cs"
      proof -
        from that Cons obtain ss where "list_all segment_ok ss" "flatten ss = cs" by blast
        then have "list_all segment_ok (Text [c] # ss) \<and> flatten (Text [c] # ss) = c # cs"
          using nb by simp
        then show ?thesis by blast
      qed
      have 2: "\<exists>g ss. bracket_free g \<and> list_all segment_ok ss \<and> c # cs = g @ CHR '']'' # flatten ss"
        if "brackets_ok False cs"
      proof -
        from that Cons obtain ss where "list_all segment_ok ss" "flatten ss = cs" by blast
        then have "bracket_free [] \<and> list_all segment_ok ss \<and> c # cs = [] @ CHR '']'' # flatten ss"
          using True by (simp add: bracket_free_def)
        then show ?thesis by blast
      qed
      show ?thesis using True nb 1 2 by simp
    next
      case False
      have 1: "\<exists>ss. list_all segment_ok ss \<and> flatten ss = c # cs" if "brackets_ok False cs"
      proof -
        from that Cons obtain ss where "list_all segment_ok ss" "flatten ss = cs" by blast
        then have "list_all segment_ok (Text [c] # ss) \<and> flatten (Text [c] # ss) = c # cs"
          using nb by simp
        then show ?thesis by blast
      qed
      have 2: "\<exists>g ss. bracket_free g \<and> list_all segment_ok ss \<and> c # cs = g @ CHR '']'' # flatten ss"
        if "brackets_ok True cs"
      proof -
        from that Cons obtain g ss where
          "bracket_free g" "list_all segment_ok ss" "cs = g @ CHR '']'' # flatten ss" by blast
        then have "bracket_free (c # g) \<and> list_all segment_ok ss
                   \<and> c # cs = (c # g) @ CHR '']'' # flatten ss"
          using nb False by (simp add: bracket_free_def)
        then show ?thesis by blast
      qed
      show ?thesis using False nb 1 2 by simp
    qed
  qed
qed

lemma well_bracketed_segments:
  assumes "well_bracketed body"
  obtains ss where "list_all segment_ok ss" "flatten ss = body"
  using assms brackets_ok_segments [of body] unfolding well_bracketed_def by blast

lemma fill_placeholders_append:
  "fill_placeholders t (xs @ ys) = fill_placeholders (fill_placeholders t xs) ys"
  by (induction xs arbitrary: t) auto

lemma render_append: "render body cd ci = fill_placeholders body (cd @ ci)"
  by (simp add: render_def fill_placeholders_append)

lemma plain_fields_append: "plain_fields (xs @ ys) = (plain_fields xs \<and> plain_fields ys)"
  by (simp add: plain_fields_def)

lemma fill_placeholders_flatten:
  assumes "list_all segment_ok ss" "plain_fields fs"
  shows "fill_placeholders (flatten ss) fs = flatten (map (fill_segment fs) ss)
         \<and> list_all segment_ok (map (fill_segment fs) ss)"
  using assms
proof (induction fs arbitrary: ss)
  case Nil
  then show ?case by simp
next
  case (Cons kv rest)
  obtain k v where kv: "kv = (k, v)" by (cases kv)
  from Cons.prems(2) kv have k: "bracket_free k" and v: "CHR ''['' \<notin> set v"
    and rest: "plain_fields rest"
    by (auto simp: plain_fields_def)
  let ?ss = "map (fill (placeholder_name k) v) ss"
  have rep: "py_replace (flatten ss) (placeholder k) v = flatten ?ss"
    using replace_flatten [OF Cons.prems(1) placeholder_name_bracket_free [OF k]]
    by (simp add: placeholder_token)
  have ok: "list_all segment_ok ?ss"
    using Cons.prems(1) fill_ok [OF _ v] by (auto simp: list_all_iff)
  from Cons.IH [OF ok rest] rep kv show ?case
    by (simp add: comp_def)
qed

lemma fill_segment_Text: "fill_segment fs (Text a) = Text a"
  by (induction fs) auto

lemma fill_segment_Hole_absent:
  "g \<notin> set (map (\<lambda>(k, v). placeholder_name k) fs) \<Longrightarrow> fill_segment fs (Hole g) = Hole g"
  by (induction fs) auto

lemma fill_segment_Hole_present:
  "g \<in> set (map (\<lambda>(k, v). placeholder_name k) fs) \<Longrightarrow> \<exists>v. fill_segment fs (Hole g) = Text v"
proof (induction fs)
  case Nil
  then show ?case by simp
next
  case (Cons kv fs)
  obtain k v where kv: "kv = (k, v)" by (cases kv)
  show ?case
  proof (cases "placeholder_name k = g")
    case True
    then show ?thesis using kv by (simp add: fill_segment_Text)
  next
    case False
    then show ?thesis using kv Cons by auto
  qed
qed

lemma fill_segment_append:
  "fill_segment (xs @ ys) seg = fill_segment ys (fill_segment xs seg)"
  by (induction xs arbitrary: seg) auto

lemma fill_segment_idem: "fill_segment fs (fill_segment fs seg) = fill_segment fs seg"
proof (cases seg)
  case (Text a)
  then show ?thesis by (simp add: fill_segment_Text)
next
  case (Hole g)
  show ?thesis
  proof (cases "g \<in> set (map (\<lambda>(k, v). placeholder_name k) fs)")
    case True
    from fill_segment_Hole_present [OF this] Hole show ?thesis
      by (auto simp: fill_segment_Text)
  next
    case False
    from fill_segment_Hole_absent [OF this] Hole show ?thesis by simp
  qed
qed

lemma fill_segment_no_supplied_hole:
  assumes "(k, v) \<in> set fs"
  shows "fill_segment fs seg \<noteq> Hole (placeholder_name k)"
proof (cases seg)
  case (Text a)
  then show ?thesis by (simp add: fill_segment_Text)
next
  case (Hole g)
  show ?thesis
  proof (cases "g \<in> set (map (\<lambda>(k, v). placeholder_name k) fs)")
    case True
    from fill_segment_Hole_present [OF this] Hole show ?thesis by auto
  next
    case False
    have "placeholder_name k \<in> set (map (\<lambda>(k, v). placeholder_name k) fs)"
      using assms by force
    with False have "g \<noteq> placeholder_name k" by blast
    with fill_segment_Hole_absent [OF False] Hole show ?thesis by simp
  qed
qed

lemma token_absent:
  assumes "list_all segment_ok ss" "bracket_free w" "Hole w \<notin> set ss"
  shows "\<not> sublist (CHR ''['' # w @ '']'') (flatten ss)"
proof -
  have "map (fill w []) ss = ss"
  proof (rule map_idI)
    fix seg assume "seg \<in> set ss"
    with assms(3) show "fill w [] seg = seg" by (cases seg) auto
  qed
  with replace_flatten [OF assms(1,2), of "[]"]
  have "py_replace (flatten ss) (CHR ''['' # w @ '']'') [] = flatten ss" by simp
  from py_replace_removes_nothing [OF this] show ?thesis by simp
qed

lemma placeholder_eq_iff: "placeholder k = placeholder k' \<longleftrightarrow> placeholder_name k = placeholder_name k'"
  by (simp add: placeholder_token)

lemma disjoint_tokens_names:
  assumes "disjoint_tokens xs ys"
  shows "set (map (\<lambda>(k, v). placeholder_name k) xs) \<inter> set (map (\<lambda>(k, v). placeholder_name k) ys) = {}"
proof -
  have "placeholder_name k \<noteq> placeholder_name k'" if "(k, v) \<in> set xs" "(k', v') \<in> set ys" for k v k' v'
  proof -
    from assms have "\<forall>kv\<in>set xs. case kv of (k, v) \<Rightarrow>
        placeholder k \<notin> set (map (\<lambda>(k', v'). placeholder k') ys)"
      by (simp add: disjoint_tokens_def list_all_iff)
    with that(1) have "placeholder k \<notin> set (map (\<lambda>(k', v'). placeholder k') ys)"
      by fastforce
    moreover have "placeholder k' \<in> set (map (\<lambda>(k', v'). placeholder k') ys)"
      using that(2) by force
    ultimately show ?thesis using placeholder_eq_iff by metis
  qed
  then show ?thesis by fastforce
qed

lemma fill_segment_commute:
  assumes "set (map (\<lambda>(k, v). placeholder_name k) xs) \<inter> set (map (\<lambda>(k, v). placeholder_name k) ys) = {}"
  shows "fill_segment (xs @ ys) seg = fill_segment (ys @ xs) seg"
proof (cases seg)
  case (Text a)
  then show ?thesis by (simp add: fill_segment_append fill_segment_Text)
next
  case (Hole g)
  show ?thesis
  proof (cases "g \<in> set (map (\<lambda>(k, v). placeholder_name k) xs)")
    case True
    with assms have ny: "g \<notin> set (map (\<lambda>(k, v). placeholder_name k) ys)" by blast
    from fill_segment_Hole_present [OF True] obtain v where "fill_segment xs (Hole g) = Text v" ..
    with fill_segment_Hole_absent [OF ny] Hole show ?thesis
      by (simp add: fill_segment_append fill_segment_Text)
  next
    case nx: False
    show ?thesis
    proof (cases "g \<in> set (map (\<lambda>(k, v). placeholder_name k) ys)")
      case True
      from fill_segment_Hole_present [OF True] obtain v where "fill_segment ys (Hole g) = Text v" ..
      with fill_segment_Hole_absent [OF nx] Hole show ?thesis
        by (simp add: fill_segment_append fill_segment_Text)
    next
      case False
      with fill_segment_Hole_absent [OF nx] fill_segment_Hole_absent [OF False] Hole
      show ?thesis by (simp add: fill_segment_append)
    qed
  qed
qed


section \<open>Placeholder tokens and rendering\<close>

lemma is_lower_not_upper: "is_lower c \<Longrightarrow> \<not> is_upper c"
  unfolding is_lower_def is_upper_def by linarith

lemma title_from_lower_run:
  assumes "list_all is_lower cs"
  shows "title_from True (cs @ rest) = cs @ title_from True rest"
  using assms
  by (induction cs) (auto simp: to_lower_def is_lower_not_upper)

lemma title_from_space: "title_from prev (CHR '' '' # rest) = CHR '' '' # title_from False rest"
  by (simp add: is_lower_def is_upper_def)

lemma title_from_word:
  assumes "lower_word w"
  shows "title_from False (w @ rest) = capitalize w @ title_from True rest"
proof -
  from assms obtain c cs where w: "w = c # cs" and c: "is_lower c" and cs: "list_all is_lower cs"
    by (cases w) (auto simp: lower_word_def)
  show ?thesis using w c title_from_lower_run [OF cs, of rest] by simp
qed

lemma title_from_words:
  assumes "list_all lower_word ws"
  shows "title_from False (join_with CHR '' '' ws) = join_with CHR '' '' (map capitalize ws)"
  using assms
proof (induction ws)
  case Nil
  show ?case by simp
next
  case (Cons w ws)
  then have w: "lower_word w" and rest: "list_all lower_word ws" by simp_all
  show ?case
  proof (cases "ws = []")
    case True
    then show ?thesis using title_from_word [OF w, of "[]"] by simp
  next
    case False
    have "title_from False (w @ CHR '' '' # join_with CHR '' '' ws)
          = capitalize w @ CHR '' '' # title_from False (join_with CHR '' '' ws)"
      using title_from_word [OF w] title_from_space by simp
    with Cons.IH [OF rest] False show ?thesis by simp
  qed
qed

lemma underscore_join:
  assumes "list_all lower_word ws"
  shows "map (\<lambda>c. if c = CHR ''_'' then CHR '' '' else c) (join_with CHR ''_'' ws)
         = join_with CHR '' '' ws"
  using assms
proof (induction ws)
  case Nil
  show ?case by simp
next
  case (Cons w ws)
  then have w: "\<forall>c\<in>set w. c \<noteq> CHR ''_''" and rest: "list_all lower_word ws"
    by (auto simp: lower_word_def list_all_iff is_lower_def)
  have "map (\<lambda>c. if c = CHR ''_'' then CHR '' '' else c) w = w"
    using w by (simp add: map_idI)
  with Cons.IH [OF rest] show ?case by simp
qed

lemma placeholder_words:
  assumes "list_all lower_word ws"
  shows "placeholder (join_with CHR ''_'' ws) = token_spec ws"
  using underscore_join [OF assms] title_from_words [OF assms]
  by (simp add: placeholder_def token_spec_def py_title_def py_replace_underscore)

lemma prepare_render:
  assumes "responses key = Some body"
  shows "prepare_standard_response responses key cd ci = Inr (render body cd ci)"
  using assms by (simp add: prepare_standard_response_def render_def)

lemma placeholder_account_number: "placeholder ''account_number'' = ''[Account Number]''"
  by code_simp

lemma placeholder_nonempty: "placeholder k \<noteq> []"
  by (simp add: placeholder_def)

text \<open>
  Claim C6. For a known template, \<open>prepare_standard_response\<close> returns the body with the
  customer data applied first and the company information second. Each entry \<open>(k, v)\<close> is
  applied by \<open>py_replace\<close> with the token \<open>placeholder k\<close>: a \<open>[\<close>, the key with underscores
  turned into spaces and title-cased, and a \<open>]\<close>; for a key made of lower-case words joined by
  underscores this is the token of the specification (each word capitalised), and
  \<open>account_number\<close> gives \<open>[Account Number]\<close>. The replacement is literal: a text in which the
  token does not occur is unchanged, and in a text \<open>a @ token @ b\<close> whose first occurrence of
  the token is the one after \<open>a\<close>, that occurrence becomes \<open>v\<close> and the replacement goes on in
  \<open>b\<close>, so every occurrence is replaced.
\<close>

theorem placeholder_rendering:
  "(responses key = Some body \<longrightarrow>
      prepare_standard_response responses key cd ci
        = Inr (fill_placeholders (fill_placeholders body cd) ci))
   \<and> fill_placeholders s [] = s
   \<and> fill_placeholders s ((k, v) # fs) = fill_placeholders (py_replace s (placeholder k) v) fs
   \<and> placeholder k
       = ''['' @ py_title (map (\<lambda>c. if c = CHR ''_'' then CHR '' '' else c) k) @ '']''
   \<and> (list_all lower_word ws \<longrightarrow> placeholder (join_with CHR ''_'' ws) = token_spec ws)
   \<and> placeholder ''account_number'' = ''[Account Number]''
   \<and> (\<not> sublist (placeholder k) s \<longrightarrow> py_replace s (placeholder k) v = s)
   \<and> (\<not> sublist (placeholder k) (a @ butlast (placeholder k)) \<longrightarrow>
        py_replace (a @ placeholder k @ b) (placeholder k) v
          = a @ v @ py_replace b (placeholder k) v)"
proof (intro conjI impI)
  assume "responses key = Some body"
  then show "prepare_standard_response responses key cd ci
               = Inr (fill_placeholders (fill_placeholders body cd) ci)"
    by (simp add: prepare_standard_response_def)
next
  show "fill_placeholders s [] = s" by simp
next
  show "fill_placeholders s ((k, v) # fs) = fill_placeholders (py_replace s (placeholder k) v) fs"
    by simp
next
  show "placeholder k
          = ''['' @ py_title (map (\<lambda>c. if c = CHR ''_'' then CHR '' '' else c) k) @ '']''"
    by (simp add: placeholder_def py_replace_underscore)
next
  assume "list_all lower_word ws"
  then show "placeholder (join_with CHR ''_'' ws) = token_spec ws"
    by (rule placeholder_words)
next
  show "placeholder ''account_number'' = ''[Account Number]''"
    by (rule placeholder_account_number)
next
  assume "\<not> sublist (placeholder k) s"
  then show "py_replace s (placeholder k) v = s"
    by (rule py_replace_absent)
next
  assume "\<not> sublist (placeholder k) (a @ butlast (placeholder k))"
  then show "py_replace (a @ placeholder k @ b) (placeholder k) v
               = a @ v @ py_replace b (placeholder k) v"
    by (rule py_replace_first [OF placeholder_nonempty])
qed

lemma example_render:
  "render example_body example_customer example_company
   = ''Dear Jane Doe, policy P-1002 is cancelled. Quote P-1002 when calling Acme Insurance.''"
  by code_simp

theorem placeholder_rendering_witness:
  "prepare_standard_response example_responses ''greeting'' [(''customer_name'', ''Jane'')] []
     = Inr (fill_placeholders (fill_placeholders ''Hello [Customer Name]''
              [(''customer_name'', ''Jane'')]) [])
   \<and> placeholder (join_with CHR ''_'' [''account'', ''number''])
       = token_spec [''account'', ''number'']
   \<and> py_replace ''Hello there'' (placeholder ''customer_name'') ''Jane'' = ''Hello there''
   \<and> py_replace (''Hello '' @ placeholder ''customer_name'' @ ''!'')
         (placeholder ''customer_name'') ''Jane''
       = ''Hello '' @ ''Jane'' @ py_replace ''!'' (placeholder ''customer_name'') ''Jane''"
proof -
  have h1: "example_responses ''greeting'' = Some ''Hello [Customer Name]''"
    by (simp add: example_responses_def)
  have h2: "list_all lower_word [''account'', ''number'']"
    by code_simp
  have h3: "\<not> sublist (placeholder ''customer_name'') ''Hello there''"
    by code_simp
  have h4: "\<not> sublist (placeholder ''customer_name'')
              (''Hello '' @ butlast (placeholder ''customer_name''))"
    by code_simp
  from placeholder_rendering [where responses = example_responses and key = "''greeting''"
      and body = "''Hello [Customer Name]''" and cd = "[(''customer_name'', ''Jane'')]"
      and ci = "[]" and ws = "[''account'', ''number'']" and k = "''customer_name''"
      and s = "''Hello there''" and v = "''Jane''" and a = "''Hello ''" and b = "''!''"]
    h1 h2 h3 h4
  show ?thesis by blast
qed


section \<open>Rendering twice, leftover tokens, order of the groups\<close>

lemma example_hyps:
  "well_bracketed example_body" "plain_fields example_customer" "plain_fields example_company"
  "disjoint_tokens example_customer example_company"
  by code_simp+


text \<open>
  Claim C7, amended. For a body whose brackets are placeholders (\<open>well_bracketed\<close>) and
  field sets whose keys have no bracket and whose values have no \<open>[\<close>, rendering the
  rendered text again with the same field sets returns it unchanged, whether or not the fields
  cover the tokens of the body.
\<close>

theorem render_idempotent:
  assumes "well_bracketed body" "plain_fields customer_data" "plain_fields company_info"
  shows "render (render body customer_data company_info) customer_data company_info
         = render body customer_data company_info"
proof -
  let ?fs = "customer_data @ company_info"
  have pf: "plain_fields ?fs" using assms(2,3) by (simp add: plain_fields_append)
  from assms(1) obtain ss where ss: "list_all segment_ok ss" "flatten ss = body"
    by (rule well_bracketed_segments)
  from fill_placeholders_flatten [OF ss(1) pf] ss(2)
  have first: "render body customer_data company_info = flatten (map (fill_segment ?fs) ss)"
    and ok: "list_all segment_ok (map (fill_segment ?fs) ss)"
    by (simp_all add: render_append)
  from fill_placeholders_flatten [OF ok pf]
  have "fill_placeholders (flatten (map (fill_segment ?fs) ss)) ?fs
        = flatten (map (fill_segment ?fs) ss)"
    by (simp add: comp_def fill_segment_idem)
  with first show ?thesis by (simp add: render_append)
qed


theorem render_idempotent_witness:
  "well_bracketed example_body \<and> plain_fields example_customer \<and> plain_fields example_company
   \<and> render (render example_body example_customer example_company)
        example_customer example_company
     = render example_body example_customer example_company"
  using render_idempotent [OF example_hyps(1,2,3)] example_hyps by simp

text \<open>
  As stated, without a condition on values and body, the claim fails: the field \<open>name\<close>
  covers the only token of the body \<open>Dear [Name]\<close>, its value \<open>[Name] Doe\<close> contains the
  token again, and the second rendering changes the text.
\<close>

theorem render_idempotent_counterexample:
  "covers [(''name'', ''[Name] Doe'')] ''Dear [Name]''
   \<and> render (render ''Dear [Name]'' [(''name'', ''[Name] Doe'')] []) [(''name'', ''[Name] Doe'')] []
     \<noteq> render ''Dear [Name]'' [(''name'', ''[Name] Doe'')] []"
  by code_simp

text \<open>
  The condition on the body is needed as well: with values free of brackets, a placeholder
  nested in another one leaves a token that the second rendering fills.
\<close>

lemma nested_body_breaks_idempotence:
  "covers [(''name'', ''m'')] ''[Na[Name]e]''
   \<and> plain_fields [(''name'', ''m'')]
   \<and> render ''[Na[Name]e]'' [(''name'', ''m'')] [] = ''[Name]''
   \<and> render ''[Name]'' [(''name'', ''m'')] [] = ''m''"
  by code_simp


text \<open>
  Claim C8, amended. For a body whose brackets are placeholders and field sets whose keys have
  no bracket and whose values (all of them) have no \<open>[\<close>, the token of every supplied key
  does not occur in the rendered text.
\<close>

theorem rendered_has_no_supplied_token:
  assumes "well_bracketed body" "plain_fields customer_data" "plain_fields company_info"
    and "(k, v) \<in> set (customer_data @ company_info)"
  shows "\<not> sublist (placeholder k) (render body customer_data company_info)"
proof -
  let ?fs = "customer_data @ company_info"
  have pf: "plain_fields ?fs" using assms(2,3) by (simp add: plain_fields_append)
  from assms(1) obtain ss where ss: "list_all segment_ok ss" "flatten ss = body"
    by (rule well_bracketed_segments)
  from fill_placeholders_flatten [OF ss(1) pf] ss(2)
  have first: "render body customer_data company_info = flatten (map (fill_segment ?fs) ss)"
    and ok: "list_all segment_ok (map (fill_segment ?fs) ss)"
    by (simp_all add: render_append)
  have k: "bracket_free k" using pf assms(4) by (auto simp: plain_fields_def list_all_iff)
  have "Hole (placeholder_name k) \<notin> set (map (fill_segment ?fs) ss)"
  proof
    assume "Hole (placeholder_name k) \<in> set (map (fill_segment ?fs) ss)"
    then obtain seg where "fill_segment ?fs seg = Hole (placeholder_name k)" by auto
    with fill_segment_no_supplied_hole [OF assms(4), of seg] show False by simp
  qed
  from token_absent [OF ok placeholder_name_bracket_free [OF k] this] first
  show ?thesis by (simp add: placeholder_token)
qed


theorem rendered_has_no_supplied_token_witness:
  "(''policy_number'', ''P-1002'') \<in> set (example_customer @ example_company)
   \<and> \<not> sublist (placeholder ''policy_number'')
         (render example_body example_customer example_company)"
proof -
  have m: "(''policy_number'', ''P-1002'') \<in> set (example_customer @ example_company)"
    by (simp add: example_customer_def)
  from rendered_has_no_supplied_token [OF example_hyps(1,2,3) m] m show ?thesis by simp
qed

text \<open>
  As stated the claim fails: the only value, \<open>m\<close>, has no bracket, and the token \<open>[Name]\<close> of
  its key occurs in the rendering of the body \<open>[Na[Name]e]\<close>.
\<close>

theorem rendered_token_counterexample:
  "(''name'', ''m'') \<in> set [(''name'', ''m'')]
   \<and> bracket_free ''m''
   \<and> sublist (placeholder ''name'') (render ''[Na[Name]e]'' [(''name'', ''m'')] [])"
  by code_simp

text \<open>
  A token can also come from the value of another key.
\<close>

lemma other_value_reintroduces_token:
  "bracket_free ''Jane''
   \<and> sublist (placeholder ''name'')
        (render ''Dear [Title]'' [(''name'', ''Jane''), (''title'', ''[Name]'')] [])"
  by code_simp


text \<open>
  Claim C9, amended. For a body whose brackets are placeholders and two field sets whose keys
  have no bracket, whose values have no \<open>[\<close> and whose tokens are disjoint, applying the
  customer data and then the company information gives the same text as the opposite order.
\<close>

theorem render_order_independent:
  assumes "well_bracketed body" "plain_fields customer_data" "plain_fields company_info"
    and "disjoint_tokens customer_data company_info"
  shows "render body customer_data company_info = render body company_info customer_data"
proof -
  from assms(1) obtain ss where ss: "list_all segment_ok ss" "flatten ss = body"
    by (rule well_bracketed_segments)
  have pf1: "plain_fields (customer_data @ company_info)"
    and pf2: "plain_fields (company_info @ customer_data)"
    using assms(2,3) by (simp_all add: plain_fields_append)
  have "map (fill_segment (customer_data @ company_info)) ss
        = map (fill_segment (company_info @ customer_data)) ss"
    using fill_segment_commute [OF disjoint_tokens_names [OF assms(4)]] by simp
  with fill_placeholders_flatten [OF ss(1) pf1] fill_placeholders_flatten [OF ss(1) pf2] ss(2)
  show ?thesis by (simp add: render_append)
qed

theorem render_order_independent_witness:
  "disjoint_tokens example_customer example_company
   \<and> render example_body example_customer example_company
     = render example_body example_company example_customer"
  using render_order_independent [OF example_hyps] example_hyps(4) by simp

text \<open>
  As stated the claim fails: the tokens \<open>[Agent]\<close> and \<open>[Department]\<close> are disjoint, and the
  value of \<open>agent\<close> is filled by the company information only when that is applied second.
\<close>

theorem render_order_counterexample:
  "disjoint_tokens [(''agent'', ''[Department]'')] [(''department'', ''Claims'')]
   \<and> render ''[Agent]'' [(''agent'', ''[Department]'')] [(''department'', ''Claims'')]
     \<noteq> render ''[Agent]'' [(''department'', ''Claims'')] [(''agent'', ''[Department]'')]"
  by code_simp

text \<open>The same happens with values free of brackets when placeholders are nested.\<close>

lemma nested_body_breaks_order:
  "disjoint_tokens [(''name'', ''Jane'')] [(''b'', ''m'')]
   \<and> plain_fields [(''name'', ''Jane'')] \<and> plain_fields [(''b'', ''m'')]
   \<and> render ''[Na[B]e]'' [(''name'', ''Jane'')] [(''b'', ''m'')] = ''[Name]''
   \<and> render ''[Na[B]e]'' [(''b'', ''m'')] [(''name'', ''Jane'')] = ''Jane''"
  by code_simp

end
